theory Spec2Isabelle
  imports Complex_Main "HOL-Library.AList"
begin

section \<open>JavaScript values used by the pipeline\<close>

text \<open>
  Strings are lists of characters in the ASCII range: \<open>toLowerCase\<close> maps \<open>A\<close>--\<open>Z\<close> to
  \<open>a\<close>--\<open>z\<close> and leaves every other character alone, and the white space removed by
  \<open>trim\<close> is tab, line feed, vertical tab, form feed, carriage return and space.
  A thrown exception is a value of \<open>js_error\<close>; a function that can throw returns
  \<open>js_error + 'a\<close>. Reading a property of \<open>undefined\<close> throws \<open>TypeError\<close>.
\<close>

datatype js_error = TypeError | Error string

definition upperLetters :: string where
  "upperLetters = ''ABCDEFGHIJKLMNOPQRSTUVWXYZ''"

definition lowerLetters :: string where
  "lowerLetters = ''abcdefghijklmnopqrstuvwxyz''"

definition isUpper :: "char \<Rightarrow> bool" where
  "isUpper c = (c \<in> set upperLetters)"

definition toLowerChar :: "char \<Rightarrow> char" where
  "toLowerChar c = (case map_of (zip upperLetters lowerLetters) c of Some l \<Rightarrow> l | None \<Rightarrow> c)"

definition toLowerCase :: "string \<Rightarrow> string" where
  "toLowerCase s = map toLowerChar s"

definition isSpace :: "char \<Rightarrow> bool" where
  "isSpace c = (c \<in> set [CHR 0x09, CHR 0x0A, CHR 0x0B, CHR 0x0C, CHR 0x0D, CHR '' ''])"

definition isDigit :: "char \<Rightarrow> bool" where
  "isDigit c = (c \<in> set ''0123456789'')"

definition trim :: "string \<Rightarrow> string" where
  "trim s = rev (dropWhile isSpace (rev (dropWhile isSpace s)))"

text \<open>
  \<open>s.split(sep)\<close> for a separator that is one character, or a regular expression that
  matches exactly one character out of a class: the pieces between the separators, in
  order; a string without separator (the empty string too) gives one piece.
\<close>

fun splitAcc :: "(char \<Rightarrow> bool) \<Rightarrow> string \<Rightarrow> string \<Rightarrow> string list" where
  "splitAcc P acc [] = [rev acc]"
| "splitAcc P acc (c # cs) =
     (if P c then rev acc # splitAcc P [] cs else splitAcc P (c # acc) cs)"

definition splitOn :: "(char \<Rightarrow> bool) \<Rightarrow> string \<Rightarrow> string list" where
  "splitOn P s = splitAcc P [] s"

text \<open>\<open>parts.join(sep)\<close>.\<close>

fun join :: "string \<Rightarrow> string list \<Rightarrow> string" where
  "join sep [] = []"
| "join sep [x] = x"
| "join sep (x # y # ys) = x @ sep @ join sep (y # ys)"

text \<open>\<open>hay.includes(needle)\<close>: \<open>needle\<close> occurs in \<open>hay\<close> as a contiguous substring.\<close>

fun startsWith :: "string \<Rightarrow> string \<Rightarrow> bool" where
  "startsWith hay [] = True"
| "startsWith [] (n # ns) = False"
| "startsWith (h # hs) (n # ns) = (h = n \<and> startsWith hs ns)"

fun includesStr :: "string \<Rightarrow> string \<Rightarrow> bool" where
  "includesStr [] needle = (needle = [])"
| "includesStr (h # hs) needle = (startsWith (h # hs) needle \<or> includesStr hs needle)"

text \<open>JavaScript truthiness of a string that may be \<open>undefined\<close> or \<open>null\<close>.\<close>

fun truthy :: "string option \<Rightarrow> bool" where
  "truthy None = False"
| "truthy (Some s) = (s \<noteq> [])"

definition newline :: char where
  "newline = CHR 0x0A"

section \<open>The block graph\<close>

text \<open>
  A block of the analysis response, with the properties the pipeline reads. \<open>Id\<close> is the
  provider's identifier (a UUID): it is neither a canonical array index nor the name of a
  property of \<open>Object.prototype\<close>, so a plain object keyed by ids enumerates its keys in
  the order of their first insertion and yields \<open>undefined\<close> for an id that was never
  stored. \<open>Relationships\<close> may be absent. \<open>Page\<close> is the provider's page number.
  Coordinates are exact rationals.
\<close>

record relationship =
  Type :: string
  Ids :: "string list"

record boundingBox =
  Top :: rat
  Left :: rat

record block =
  Id :: string
  BlockType :: string
  Text :: string
  EntityTypes :: "string list"
  SelectionStatus :: string
  Relationships :: "relationship list option"
  Page :: "nat option"
  BoundingBox :: boundingBox

text \<open>
  A plain object used as a dictionary: an association list in key insertion order;
  \<open>obj[k] = v\<close> is \<open>AList.update k v obj\<close> (a present key keeps its place), \<open>obj[k]\<close>
  is \<open>map_of obj k\<close>, with \<open>None\<close> for \<open>undefined\<close>.
\<close>

type_synonym 'v obj = "(string \<times> 'v) list"

section \<open>textract-utils.js\<close>

definition extractText :: "block list \<Rightarrow> string" where
  "extractText blocks =
     join [newline] (map Text (filter (\<lambda>block. BlockType block = ''LINE'') blocks))"

definition isSeparator :: "char \<Rightarrow> bool" where
  "isSeparator c = (c = CHR '':'' \<or> c = CHR ''-'' \<or> c = CHR ''='')"

fun scanLines :: "string \<Rightarrow> string list \<Rightarrow> string option" where
  "scanLines fieldName [] = None"
| "scanLines fieldName (line # lines) =
     (if includesStr line (toLowerCase fieldName) then
        (let parts = splitOn isSeparator line in
         if length parts > 1 then Some (trim (join '':'' (drop 1 parts)))
         else scanLines fieldName lines)
      else scanLines fieldName lines)"

definition extractFieldByPattern :: "block list \<Rightarrow> string \<Rightarrow> string option" where
  "extractFieldByPattern blocks fieldName =
     (let text = toLowerCase (extractText blocks);
          lines = splitOn (\<lambda>c. c = newline) text
      in scanLines fieldName lines)"

text \<open>
  \<open>getTextForBlock(block, blockMap)\<close>. The block argument may be \<open>undefined\<close> (the
  caller passes the result of a dictionary lookup): reading \<open>block.Relationships\<close>
  then throws. A child id that is not in \<open>blockMap\<close> gives \<open>undefined\<close>, and reading
  its \<open>BlockType\<close> throws.
\<close>

fun childIdsLoop :: "block obj \<Rightarrow> string list \<Rightarrow> string list \<Rightarrow> js_error + string list" where
  "childIdsLoop blockMap [] texts = Inr texts"
| "childIdsLoop blockMap (childId # ids) texts =
     (case map_of blockMap childId of
        None \<Rightarrow> Inl TypeError
      | Some wordBlock \<Rightarrow>
          if BlockType wordBlock = ''WORD'' then
            childIdsLoop blockMap ids (texts @ [Text wordBlock])
          else if BlockType wordBlock = ''SELECTION_ELEMENT'' then
            childIdsLoop blockMap ids
              (texts @ [if SelectionStatus wordBlock = ''SELECTED'' then ''[X]'' else ''[ ]''])
          else childIdsLoop blockMap ids texts)"

fun childRelsLoop :: "block obj \<Rightarrow> relationship list \<Rightarrow> string list \<Rightarrow> js_error + string list" where
  "childRelsLoop blockMap [] texts = Inr texts"
| "childRelsLoop blockMap (rel # rels) texts =
     (if Type rel = ''CHILD'' then
        (case childIdsLoop blockMap (Ids rel) texts of
           Inl e \<Rightarrow> Inl e
         | Inr texts' \<Rightarrow> childRelsLoop blockMap rels texts')
      else childRelsLoop blockMap rels texts)"

fun getTextForBlock :: "block option \<Rightarrow> block obj \<Rightarrow> js_error + string" where
  "getTextForBlock None blockMap = Inl TypeError"
| "getTextForBlock (Some block) blockMap =
     (case Relationships block of
        None \<Rightarrow> Inr []
      | Some rels \<Rightarrow>
          (case childRelsLoop blockMap rels [] of
             Inl e \<Rightarrow> Inl e
           | Inr texts \<Rightarrow> Inr (join '' '' texts)))"

text \<open>
  \<open>extractKeyValuePairs(blocks)\<close>: the first loop fills \<open>keyMap\<close>, \<open>valueMap\<close> and
  \<open>blockMap\<close>; the second walks \<open>keyMap\<close> in key order and, for every id of every
  \<open>VALUE\<close> relationship, stores the value text under the key text.
\<close>

fun organizeBlocks ::
  "block list \<Rightarrow> block obj \<times> block obj \<times> block obj \<Rightarrow> block obj \<times> block obj \<times> block obj" where
  "organizeBlocks [] maps = maps"
| "organizeBlocks (block # blocks) (keyMap, valueMap, blockMap) =
     (let blockMap' = AList.update (Id block) block blockMap in
      if BlockType block = ''KEY_VALUE_SET'' then
        (if ''KEY'' \<in> set (EntityTypes block) then
           organizeBlocks blocks (AList.update (Id block) block keyMap, valueMap, blockMap')
         else
           organizeBlocks blocks (keyMap, AList.update (Id block) block valueMap, blockMap'))
      else organizeBlocks blocks (keyMap, valueMap, blockMap'))"

fun valueIdsLoop ::
  "block obj \<Rightarrow> block obj \<Rightarrow> string \<Rightarrow> string list \<Rightarrow> string obj \<Rightarrow> js_error + string obj" where
  "valueIdsLoop valueMap blockMap keyText [] keyValues = Inr keyValues"
| "valueIdsLoop valueMap blockMap keyText (valueId # ids) keyValues =
     (case getTextForBlock (map_of valueMap valueId) blockMap of
        Inl e \<Rightarrow> Inl e
      | Inr valueText \<Rightarrow>
          valueIdsLoop valueMap blockMap keyText ids (AList.update keyText valueText keyValues))"

fun valueRelsLoop ::
  "block obj \<Rightarrow> block obj \<Rightarrow> string \<Rightarrow> relationship list \<Rightarrow> string obj \<Rightarrow> js_error + string obj" where
  "valueRelsLoop valueMap blockMap keyText [] keyValues = Inr keyValues"
| "valueRelsLoop valueMap blockMap keyText (rel # rels) keyValues =
     (if Type rel = ''VALUE'' then
        (case valueIdsLoop valueMap blockMap keyText (Ids rel) keyValues of
           Inl e \<Rightarrow> Inl e
         | Inr keyValues' \<Rightarrow> valueRelsLoop valueMap blockMap keyText rels keyValues')
      else valueRelsLoop valueMap blockMap keyText rels keyValues)"

fun keysLoop ::
  "block obj \<Rightarrow> block obj \<Rightarrow> (string \<times> block) list \<Rightarrow> string obj \<Rightarrow> js_error + string obj" where
  "keysLoop valueMap blockMap [] keyValues = Inr keyValues"
| "keysLoop valueMap blockMap ((keyBlockId, keyBlock) # keys) keyValues =
     (case getTextForBlock (Some keyBlock) blockMap of
        Inl e \<Rightarrow> Inl e
      | Inr keyText \<Rightarrow>
          (case Relationships keyBlock of
             None \<Rightarrow> keysLoop valueMap blockMap keys keyValues
           | Some rels \<Rightarrow>
               (case valueRelsLoop valueMap blockMap keyText rels keyValues of
                  Inl e \<Rightarrow> Inl e
                | Inr keyValues' \<Rightarrow> keysLoop valueMap blockMap keys keyValues')))"

definition extractKeyValuePairs :: "block list \<Rightarrow> js_error + string obj" where
  "extractKeyValuePairs blocks =
     (case organizeBlocks blocks ([], [], []) of
        (keyMap, valueMap, blockMap) \<Rightarrow> keysLoop valueMap blockMap keyMap [])"

text \<open>
  \<open>extractFields(blocks, fieldsToExtract)\<close>:
  \<open>results[field] = keyValuePairs[field] || extractFieldByPattern(blocks, field)\<close>;
  \<open>None\<close> is \<open>null\<close>.
\<close>

fun fieldsLoop :: "string obj \<Rightarrow> block list \<Rightarrow> string list \<Rightarrow> string option obj \<Rightarrow> string option obj" where
  "fieldsLoop keyValuePairs blocks [] results = results"
| "fieldsLoop keyValuePairs blocks (field # rest) results =
     fieldsLoop keyValuePairs blocks rest
       (AList.update field
          (if truthy (map_of keyValuePairs field) then map_of keyValuePairs field
           else extractFieldByPattern blocks field)
          results)"

definition extractFields :: "block list \<Rightarrow> string list \<Rightarrow> js_error + string option obj" where
  "extractFields blocks fieldsToExtract =
     (case extractKeyValuePairs blocks of
        Inl e \<Rightarrow> Inl e
      | Inr keyValuePairs \<Rightarrow> Inr (fieldsLoop keyValuePairs blocks fieldsToExtract []))"

subsection \<open>Company identification\<close>

text \<open>
  A company record of the registry; \<open>recordFields\<close> is its property \<open>fields\<close>, and
  \<open>targetTables\<close> may be absent.
\<close>

record companyRecord =
  company :: string
  recordFields :: "string list"
  targetTables :: "string list option"

definition findMatchingCompanyInPage :: "string \<Rightarrow> companyRecord list \<Rightarrow> companyRecord option" where
  "findMatchingCompanyInPage pageText companyRecords =
     (let normalizedText = toLowerCase pageText in
      find (\<lambda>c. includesStr normalizedText (toLowerCase (company c))) companyRecords)"

text \<open>
  \<open>identifyCompanyAndFields(documentText)\<close>; the registry scan \<open>getAllCompanyRecords()\<close>
  is a parameter: the records, or the error it throws. The result is the pair
  \<open>(company, fieldsToExtract)\<close>, with \<open>None\<close> for \<open>company: null\<close>.
\<close>

fun recordsLoop :: "string \<Rightarrow> companyRecord list \<Rightarrow> string option \<times> string list" where
  "recordsLoop lowerText [] = (None, [])"
| "recordsLoop lowerText (record # records) =
     (if includesStr lowerText (toLowerCase (company record))
      then (Some (company record), recordFields record)
      else recordsLoop lowerText records)"

definition identifyCompanyAndFields ::
  "js_error + companyRecord list \<Rightarrow> string \<Rightarrow> js_error + string option \<times> string list" where
  "identifyCompanyAndFields getAllCompanyRecords documentText =
     (case getAllCompanyRecords of
        Inl e \<Rightarrow> Inl e
      | Inr companyRecords \<Rightarrow> Inr (recordsLoop (toLowerCase documentText) companyRecords))"

subsection \<open>Page scoped extraction\<close>

definition extractTextFromPage :: "block list \<Rightarrow> string \<Rightarrow> string" where
  "extractTextFromPage blocks pageId =
     (let pageBlocks =
        filter (\<lambda>block. BlockType block = ''LINE'' \<and>
                  (case Relationships block of
                     None \<Rightarrow> False
                   | Some rels \<Rightarrow>
                       list_ex (\<lambda>rel. Type rel = ''CHILD'' \<and> pageId \<in> set (Ids rel)) rels))
          blocks
      in join [newline] (map Text pageBlocks))"

text \<open>
  \<open>block.Page === pageId\<close> compares the provider's page number (or \<open>undefined\<close>) with
  the id string of the page block: strict equality of values of different types.
\<close>

definition pageStrictEquals :: "nat option \<Rightarrow> string \<Rightarrow> bool" where
  "pageStrictEquals page pageId = False"

definition extractFieldsFromPage ::
  "block list \<Rightarrow> string \<Rightarrow> string list \<Rightarrow> js_error + string option obj" where
  "extractFieldsFromPage blocks pageId fieldsToExtract =
     (let pageBlocks =
        filter (\<lambda>block. pageStrictEquals (Page block) pageId \<or>
                  (case Relationships block of
                     None \<Rightarrow> False
                   | Some rels \<Rightarrow> list_ex (\<lambda>rel. pageId \<in> set (Ids rel)) rels))
          blocks
      in case extractKeyValuePairs pageBlocks of
           Inl e \<Rightarrow> Inl e
         | Inr keyValuePairs \<Rightarrow> Inr (fieldsLoop keyValuePairs pageBlocks fieldsToExtract []))"

subsection \<open>Orchestrators\<close>

text \<open>
  What the provider returns to \<open>analyzeDocument\<close> and to one poll of an asynchronous job;
  \<open>Blocks\<close> and \<open>NextToken\<close> may be absent. One element of the pipeline's output is an
  \<open>extractionResult\<close>; its properties \<open>company\<close> and \<open>targetTables\<close> are
  \<open>resultCompany\<close> and \<open>resultTargetTables\<close> here.
\<close>

record response =
  Blocks :: "block list option"
  NextToken :: "string option"
  JobStatus :: string

record extractionResult =
  resultCompany :: string
  pageNumber :: nat
  extractedFields :: "string option obj"
  resultTargetTables :: "string list"

text \<open>
  \<open>processSinglePageDocument(s3Location)\<close>. The collaborators are parameters:
  \<open>analyzeDocument\<close> is the provider's answer or the error it throws, \<open>getAllCompanyRecords\<close>
  the registry scan or its error, \<open>getTargetTablesForCompany\<close> the registry lookup, which
  catches its own errors.
\<close>

definition processSinglePageDocument ::
  "js_error + response \<Rightarrow> js_error + companyRecord list \<Rightarrow> (string \<Rightarrow> string list)
     \<Rightarrow> js_error + extractionResult list" where
  "processSinglePageDocument analyzeDocument getAllCompanyRecords getTargetTablesForCompany =
     (case analyzeDocument of
        Inl e \<Rightarrow> Inl e
      | Inr textractData \<Rightarrow>
          (case Blocks textractData of
             None \<Rightarrow> Inl TypeError
           | Some blocks \<Rightarrow>
               (let documentText = extractText blocks in
                case identifyCompanyAndFields getAllCompanyRecords documentText of
                  Inl e \<Rightarrow> Inl e
                | Inr (identified, fieldsToExtract) \<Rightarrow>
                    (case identified of
                       None \<Rightarrow> Inl (Error ''Company not recognized in single page document'')
                     | Some name \<Rightarrow>
                         if name = [] then
                           Inl (Error ''Company not recognized in single page document'')
                         else
                           (case extractFields blocks fieldsToExtract of
                              Inl e \<Rightarrow> Inl e
                            | Inr extractionResults \<Rightarrow>
                                Inr [\<lparr>resultCompany = name, pageNumber = 1,
                                      extractedFields = extractionResults,
                                      resultTargetTables = getTargetTablesForCompany name\<rparr>])))))"

text \<open>
  The \<open>for\<close> loop of \<open>processMultiPageDocument\<close> over the \<open>PAGE\<close> blocks of one batch: it
  returns the page counter and the results after the batch.
\<close>

fun pagesLoop ::
  "companyRecord list \<Rightarrow> block list \<Rightarrow> block list \<Rightarrow> nat \<Rightarrow> extractionResult list
     \<Rightarrow> js_error + nat \<times> extractionResult list" where
  "pagesLoop companyRecords blocks [] currentPage results = Inr (currentPage, results)"
| "pagesLoop companyRecords blocks (pageBlock # pageBlocks) currentPage results =
     (let pageText = extractTextFromPage blocks (Id pageBlock) in
      case findMatchingCompanyInPage pageText companyRecords of
        None \<Rightarrow> pagesLoop companyRecords blocks pageBlocks (currentPage + 1) results
      | Some matchedCompany \<Rightarrow>
          (case extractFieldsFromPage blocks (Id pageBlock) (recordFields matchedCompany) of
             Inl e \<Rightarrow> Inl e
           | Inr fieldValues \<Rightarrow>
               pagesLoop companyRecords blocks pageBlocks (currentPage + 1)
                 (results @
                  [\<lparr>resultCompany = company matchedCompany, pageNumber = currentPage,
                    extractedFields = fieldValues,
                    resultTargetTables =
                      (case targetTables matchedCompany of None \<Rightarrow> [] | Some ts \<Rightarrow> ts)\<rparr>])))"

text \<open>
  The \<open>while (!finished)\<close> loop. \<open>getAsyncResults jobId n nextToken\<close> is the provider's
  answer (or the error thrown) to the poll that follows \<open>n\<close> earlier polls of the job and
  passes the cursor \<open>nextToken\<close>. The loop can run forever: \<open>None\<close> is the run that never
  returns. A run that returns gives the results and the number of polls it made.
\<close>

partial_function (option) pollLoop ::
  "(string \<Rightarrow> nat \<Rightarrow> string option \<Rightarrow> js_error + response) \<Rightarrow> companyRecord list \<Rightarrow> string
     \<Rightarrow> nat \<Rightarrow> string option \<Rightarrow> nat \<Rightarrow> extractionResult list
     \<Rightarrow> (js_error + extractionResult list \<times> nat) option" where
  "pollLoop getAsyncResults companyRecords jobId polls nextToken currentPage results =
     (case getAsyncResults jobId polls nextToken of
        Inl e \<Rightarrow> Some (Inl e)
      | Inr response \<Rightarrow>
          (case Blocks response of
             None \<Rightarrow> Some (Inl TypeError)
           | Some blocks \<Rightarrow>
               (case pagesLoop companyRecords blocks
                       (filter (\<lambda>block. BlockType block = ''PAGE'') blocks) currentPage results of
                  Inl e \<Rightarrow> Some (Inl e)
                | Inr (currentPage', results') \<Rightarrow>
                    if \<not> truthy (NextToken response) \<or> JobStatus response \<noteq> ''IN_PROGRESS''
                    then Some (Inr (results', Suc polls))
                    else pollLoop getAsyncResults companyRecords jobId (Suc polls)
                           (NextToken response) currentPage' results')))"

definition processMultiPageDocument ::
  "js_error + string \<Rightarrow> (string \<Rightarrow> nat \<Rightarrow> string option \<Rightarrow> js_error + response)
     \<Rightarrow> companyRecord list \<Rightarrow> (js_error + extractionResult list \<times> nat) option" where
  "processMultiPageDocument startAsyncTextractJob getAsyncResults companyRecords =
     (case startAsyncTextractJob of
        Inl e \<Rightarrow> Some (Inl e)
      | Inr jobId \<Rightarrow> pollLoop getAsyncResults companyRecords jobId 0 None 1 [])"

section \<open>LocalFileProcessing.js\<close>

text \<open>
  \<open>getText(block, blockMap)\<close> and the \<open>extractKeyValuePairs\<close> of the local processors
  (the same text in LocalFileProcessing.js, LocalFileProcessingAdvanced.js and the first
  Lambda handler). Their first loop is the one of textract-utils.js.
\<close>

fun getTextIds :: "block obj \<Rightarrow> string list \<Rightarrow> string \<Rightarrow> js_error + string" where
  "getTextIds blockMap [] text = Inr text"
| "getTextIds blockMap (childId # ids) text =
     (case map_of blockMap childId of
        None \<Rightarrow> Inl TypeError
      | Some child \<Rightarrow>
          if BlockType child = ''WORD'' then getTextIds blockMap ids (text @ Text child @ '' '')
          else getTextIds blockMap ids text)"

fun getTextRels :: "block obj \<Rightarrow> relationship list \<Rightarrow> string \<Rightarrow> js_error + string" where
  "getTextRels blockMap [] text = Inr text"
| "getTextRels blockMap (relationship # rels) text =
     (if Type relationship = ''CHILD'' then
        (case getTextIds blockMap (Ids relationship) text of
           Inl e \<Rightarrow> Inl e
         | Inr text' \<Rightarrow> getTextRels blockMap rels text')
      else getTextRels blockMap rels text)"

definition getText :: "block \<Rightarrow> block obj \<Rightarrow> js_error + string" where
  "getText block blockMap =
     (case Relationships block of
        None \<Rightarrow> Inr (trim [])
      | Some rels \<Rightarrow>
          (case getTextRels blockMap rels [] of
             Inl e \<Rightarrow> Inl e
           | Inr text \<Rightarrow> Inr (trim text)))"

text \<open>
  The second loop: \<open>keyBlock.Relationships.find(r => r.Type === 'VALUE').Ids[0]\<close> throws
  when the key block has no relationships or no \<open>VALUE\<close> relationship; an empty \<open>Ids\<close>
  gives \<open>undefined\<close>, which as a property key is the string \<open>undefined\<close>.
\<close>

fun localKeysLoop ::
  "block obj \<Rightarrow> block obj \<Rightarrow> (string \<times> block) list \<Rightarrow> string obj \<Rightarrow> js_error + string obj" where
  "localKeysLoop valueMap blockMap [] keyValuePairs = Inr keyValuePairs"
| "localKeysLoop valueMap blockMap ((keyBlockId, keyBlock) # keys) keyValuePairs =
     (case Relationships keyBlock of
        None \<Rightarrow> Inl TypeError
      | Some rels \<Rightarrow>
          (case find (\<lambda>r. Type r = ''VALUE'') rels of
             None \<Rightarrow> Inl TypeError
           | Some r \<Rightarrow>
               (let valueBlockId = (case Ids r of [] \<Rightarrow> ''undefined'' | i # _ \<Rightarrow> i) in
                case map_of valueMap valueBlockId of
                  None \<Rightarrow> localKeysLoop valueMap blockMap keys keyValuePairs
                | Some valueBlock \<Rightarrow>
                    (case getText keyBlock blockMap of
                       Inl e \<Rightarrow> Inl e
                     | Inr keyText \<Rightarrow>
                         (case getText valueBlock blockMap of
                            Inl e \<Rightarrow> Inl e
                          | Inr valueText \<Rightarrow>
                              if keyText \<noteq> [] \<and> valueText \<noteq> [] then
                                localKeysLoop valueMap blockMap keys
                                  (AList.update (trim keyText) (trim valueText) keyValuePairs)
                              else localKeysLoop valueMap blockMap keys keyValuePairs)))))"

definition localExtractKeyValuePairs :: "block list \<Rightarrow> js_error + string obj" where
  "localExtractKeyValuePairs blocks =
     (case organizeBlocks blocks ([], [], []) of
        (keyMap, valueMap, blockMap) \<Rightarrow> localKeysLoop valueMap blockMap keyMap [])"

section \<open>LocalFileProcessingAdvanced.js: the table zone\<close>

















section \<open>Example inputs\<close>

text \<open>A block with the given id, type and text and no other property set.\<close>

definition exampleBlock :: "string \<Rightarrow> string \<Rightarrow> string \<Rightarrow> block" where
  "exampleBlock blockId blockType blockText =
     \<lparr>Id = blockId, BlockType = blockType, Text = blockText, EntityTypes = [],
      SelectionStatus = [], Relationships = None, Page = None,
      BoundingBox = \<lparr>Top = 0, Left = 0\<rparr>\<rparr>"

text \<open>
  Two batches whose flattened text is \<open>Date: 2024-01-05\<close> followed by a line feed, and one
  whose line ends in a backslash and the letter \<open>n\<close>.
\<close>

definition dateBlocks :: "block list" where
  "dateBlocks = [exampleBlock ''l1'' ''LINE'' ''Date: 2024-01-05'', exampleBlock ''l2'' ''LINE'' '''']"

definition dateBlock :: "block list" where
  "dateBlock = [exampleBlock ''l1'' ''LINE'' (''Date: 2024-01-05'' @ [newline])]"

definition dateBlockBackslash :: "block list" where
  "dateBlockBackslash = [exampleBlock ''l1'' ''LINE'' (''Date: 2024-01-05'' @ [CHR 0x5C, CHR ''n''])]"

definition refBlocks :: "block list" where
  "refBlocks = [exampleBlock ''l1'' ''LINE'' ''Invoice'', exampleBlock ''l2'' ''LINE'' ''Ref: A-1=B'']"

text \<open>The registry of the order-dependent example.\<close>

definition acmeRecord :: companyRecord where
  "acmeRecord = \<lparr>company = ''Acme'', recordFields = [''Date:''], targetTables = Some [''acme-orders'']\<rparr>"

definition acmeCorpRecord :: companyRecord where
  "acmeCorpRecord = \<lparr>company = ''Acme Corp'', recordFields = [''Total''], targetTables = None\<rparr>"

text \<open>Two single-page answers of the provider: one names no company of the registry, one names Acme.\<close>

definition refResponse :: response where
  "refResponse = \<lparr>Blocks = Some refBlocks, NextToken = None, JobStatus = ''SUCCEEDED''\<rparr>"

definition acmeResponse :: response where
  "acmeResponse =
     \<lparr>Blocks = Some [exampleBlock ''l1'' ''LINE'' ''ACME order 7''], NextToken = None,
      JobStatus = ''SUCCEEDED''\<rparr>"

text \<open>
  Form blocks: a word, a key block with its \<open>VALUE\<close> and \<open>CHILD\<close> relationships, a value
  block with its \<open>CHILD\<close> relationship.
\<close>

definition wordBlock :: "string \<Rightarrow> string \<Rightarrow> block" where
  "wordBlock blockId blockText = exampleBlock blockId ''WORD'' blockText"

definition keyBlock :: "string \<Rightarrow> string list \<Rightarrow> string list \<Rightarrow> block" where
  "keyBlock blockId valueIds childIds =
     (exampleBlock blockId ''KEY_VALUE_SET'' [])
       \<lparr>EntityTypes := [''KEY''],
        Relationships := Some [\<lparr>Type = ''VALUE'', Ids = valueIds\<rparr>, \<lparr>Type = ''CHILD'', Ids = childIds\<rparr>]\<rparr>"

definition valueBlock :: "string \<Rightarrow> string list \<Rightarrow> block" where
  "valueBlock blockId childIds =
     (exampleBlock blockId ''KEY_VALUE_SET'' [])
       \<lparr>EntityTypes := [''VALUE''], Relationships := Some [\<lparr>Type = ''CHILD'', Ids = childIds\<rparr>]\<rparr>"


definition danglingValueBlocks :: "block list" where
  "danglingValueBlocks =
     [keyBlock ''k0'' [''v9''] [''w0''], wordBlock ''w0'' ''Total'',
      keyBlock ''k1'' [''v1''] [''w1''], valueBlock ''v1'' [''w2''],
      wordBlock ''w1'' ''Date:'', wordBlock ''w2'' ''2024'']"

definition duplicateKeyBlocks :: "block list" where
  "duplicateKeyBlocks =
     [keyBlock ''k1'' [''v1''] [''w1''], valueBlock ''v1'' [''w2''],
      keyBlock ''k2'' [''v2''] [''w1''], valueBlock ''v2'' [''w3''],
      wordBlock ''w1'' ''Date:'', wordBlock ''w2'' ''old'', wordBlock ''w3'' ''new'']"

text \<open>
  Poll responses and providers. \<open>pendingCursor\<close> carries a cursor and the status
  \<open>IN_PROGRESS\<close>; \<open>pendingNoCursor\<close> has that status and no cursor; \<open>doneResponse\<close> has
  no cursor and the status \<open>SUCCEEDED\<close>; \<open>page1Response\<close> is a first batch of a finished
  job (one page that names Acme) with a cursor to the next batch. \<open>alwaysAnswer r\<close>
  answers every poll with \<open>r\<close>; \<open>answerAfter n\<close> answers \<open>pendingCursor\<close> to the first
  \<open>n\<close> polls and \<open>doneResponse\<close> afterwards; \<open>twoBatchJob\<close> answers \<open>page1Response\<close> to
  the first poll and \<open>doneResponse\<close> afterwards.
\<close>

definition pendingCursor :: response where
  "pendingCursor = \<lparr>Blocks = Some [], NextToken = Some ''t1'', JobStatus = ''IN_PROGRESS''\<rparr>"

definition pendingNoCursor :: response where
  "pendingNoCursor = \<lparr>Blocks = Some [], NextToken = None, JobStatus = ''IN_PROGRESS''\<rparr>"

definition doneResponse :: response where
  "doneResponse = \<lparr>Blocks = Some [], NextToken = None, JobStatus = ''SUCCEEDED''\<rparr>"

definition page1Response :: response where
  "page1Response =
     \<lparr>Blocks = Some [exampleBlock ''p1'' ''PAGE'' [],
                     (exampleBlock ''l1'' ''LINE'' ''ACME order 7'')
                       \<lparr>Relationships := Some [\<lparr>Type = ''CHILD'', Ids = [''p1'']\<rparr>]\<rparr>],
      NextToken = Some ''t1'', JobStatus = ''SUCCEEDED''\<rparr>"

definition alwaysAnswer :: "response \<Rightarrow> string \<Rightarrow> nat \<Rightarrow> string option \<Rightarrow> js_error + response" where
  "alwaysAnswer r jobId polls nextToken = Inr r"

definition answerAfter :: "nat \<Rightarrow> string \<Rightarrow> nat \<Rightarrow> string option \<Rightarrow> js_error + response" where
  "answerAfter n jobId polls nextToken = Inr (if polls < n then pendingCursor else doneResponse)"

definition twoBatchJob :: "string \<Rightarrow> nat \<Rightarrow> string option \<Rightarrow> js_error + response" where
  "twoBatchJob jobId polls nextToken = Inr (if polls = 0 then page1Response else doneResponse)"




section \<open>Strings\<close>

lemmas string_defs =
  toLowerCase_def toLowerChar_def isUpper_def upperLetters_def lowerLetters_def splitOn_def
  newline_def isSeparator_def trim_def isSpace_def isDigit_def

lemma upper_lower_disjoint: "set lowerLetters \<inter> set upperLetters = {}"
  by (simp add: lowerLetters_def upperLetters_def)

lemma toLowerChar_not_upper: "\<not> isUpper (toLowerChar c)"
proof (cases "map_of (zip upperLetters lowerLetters) c")
  case None
  have "length upperLetters = length lowerLetters"
    by (simp add: lowerLetters_def upperLetters_def)
  with None have "c \<notin> set upperLetters"
    by (simp add: map_of_zip_is_None)
  with None show ?thesis by (simp add: toLowerChar_def isUpper_def)
next
  case (Some l)
  then have "l \<in> set lowerLetters"
    by (meson map_of_SomeD set_zip_rightD)
  with upper_lower_disjoint have "l \<notin> set upperLetters" by blast
  with Some show ?thesis by (simp add: toLowerChar_def isUpper_def)
qed

lemma toLowerCase_no_upper: "c \<in> set (toLowerCase s) \<Longrightarrow> \<not> isUpper c"
  by (auto simp: toLowerCase_def toLowerChar_not_upper)

lemma set_trim: "set (trim s) \<subseteq> set s"
proof -
  have "set (trim s) = set (dropWhile isSpace (rev (dropWhile isSpace s)))"
    by (simp add: trim_def)
  also have "\<dots> \<subseteq> set (rev (dropWhile isSpace s))"
    by (meson set_dropWhileD subsetI)
  also have "\<dots> \<subseteq> set s"
    using set_dropWhileD by fastforce
  finally show ?thesis .
qed

lemma splitAcc_pieces: "x \<in> set (splitAcc P acc s) \<Longrightarrow> set x \<subseteq> set acc \<union> set s"
  by (induction s arbitrary: acc) (fastforce split: if_splits)+

lemma splitOn_pieces: "x \<in> set (splitOn P s) \<Longrightarrow> set x \<subseteq> set s"
  using splitAcc_pieces [of x P "[]" s] by (simp add: splitOn_def)

lemma splitAcc_no_sep: "\<forall>c\<in>set s. \<not> P c \<Longrightarrow> splitAcc P acc s = [rev acc @ s]"
  by (induction s arbitrary: acc) auto

lemma splitAcc_first_sep:
  "\<forall>c\<in>set before. \<not> P c \<Longrightarrow> P sep \<Longrightarrow>
   splitAcc P acc (before @ sep # rest) = (rev acc @ before) # splitAcc P [] rest"
  by (induction before arbitrary: acc) auto

lemma splitAcc_not_Nil: "splitAcc P acc s \<noteq> []"
  by (induction s arbitrary: acc) auto

lemma join_Cons: "xs \<noteq> [] \<Longrightarrow> join sep (x # xs) = x @ sep @ join sep xs"
  by (cases xs) auto

lemma join_splitAcc:
  "join '':'' (splitAcc isSeparator acc s) =
   rev acc @ map (\<lambda>c. if isSeparator c then CHR '':'' else c) s"
  by (induction s arbitrary: acc) (auto simp: join_Cons splitAcc_not_Nil)

lemma split_decompose:
  assumes "length (splitOn P line) > 1"
  shows "\<exists>before sep rest. line = before @ sep # rest \<and> P sep \<and> (\<forall>c\<in>set before. \<not> P c)"
proof -
  have "\<exists>c\<in>set line. P c"
  proof (rule ccontr)
    assume "\<not> (\<exists>c\<in>set line. P c)"
    then have "splitOn P line = [line]"
      by (simp add: splitOn_def splitAcc_no_sep)
    with assms show False by simp
  qed
  then show ?thesis
    by (metis split_list_first_prop)
qed

section \<open>The pattern fallback extractor\<close>

lemma scanLines_Some:
  "scanLines fieldName lines = Some v \<Longrightarrow>
   \<exists>line before sep rest. line \<in> set lines \<and> includesStr line (toLowerCase fieldName) \<and>
     line = before @ sep # rest \<and> isSeparator sep \<and> (\<forall>c\<in>set before. \<not> isSeparator c) \<and>
     v = trim (map (\<lambda>c. if isSeparator c then CHR '':'' else c) rest)"
proof (induction lines)
  case Nil
  then show ?case by simp
next
  case (Cons line lines)
  show ?case
  proof (cases "includesStr line (toLowerCase fieldName) \<and> length (splitOn isSeparator line) > 1")
    case True
    then obtain before sep rest where d: "line = before @ sep # rest" "isSeparator sep"
      "\<forall>c\<in>set before. \<not> isSeparator c"
      using split_decompose by blast
    have s: "splitOn isSeparator line = before # splitAcc isSeparator [] rest"
      unfolding d(1) splitOn_def using d(2,3) by (simp add: splitAcc_first_sep)
    from True Cons.prems have "v = trim (join '':'' (drop 1 (splitOn isSeparator line)))"
      by (simp add: Let_def)
    then have v: "v = trim (map (\<lambda>c. if isSeparator c then CHR '':'' else c) rest)"
      by (simp add: s join_splitAcc)
    have "line \<in> set (line # lines)" by simp
    with True d v show ?thesis by blast
  next
    case False
    with Cons.prems have "scanLines fieldName lines = Some v"
      by (auto simp: Let_def split: if_splits)
    from Cons.IH [OF this] obtain l before sep rest where
      "l \<in> set lines" "includesStr l (toLowerCase fieldName)"
      "l = before @ sep # rest" "isSeparator sep" "\<forall>c\<in>set before. \<not> isSeparator c"
      "v = trim (map (\<lambda>c. if isSeparator c then CHR '':'' else c) rest)" by blast
    moreover from this(1) have "l \<in> set (line # lines)" by simp
    ultimately show ?thesis by blast
  qed
qed

text \<open>
  Claim C2. For the text \<open>Date: 2024-01-05\<close> followed by a line feed and the field name
  \<open>Date:\<close> the claim expects the value \<open>2024-01-05\<close>. The extractor splits the line at
  every separator and joins the pieces after the first with colons: it returns
  \<open>2024:01:05\<close>, whether the text comes from two \<open>LINE\<close> blocks or from one whose text
  ends in the line feed; a text that ends in a backslash and \<open>n\<close> keeps both characters.
\<close>

theorem pattern_date_example:
  "extractText dateBlocks = ''Date: 2024-01-05'' @ [newline] \<and>
   extractFieldByPattern dateBlocks ''Date:'' = Some ''2024:01:05'' \<and>
   extractText dateBlock = ''Date: 2024-01-05'' @ [newline] \<and>
   extractFieldByPattern dateBlock ''Date:'' = Some ''2024:01:05'' \<and>
   extractFieldByPattern dateBlockBackslash ''Date:'' = Some (''2024:01:05'' @ [CHR 0x5C, CHR ''n''])"
  by (simp add: dateBlocks_def dateBlock_def dateBlockBackslash_def exampleBlock_def
      extractFieldByPattern_def extractText_def string_defs)

text \<open>
  Claim C10. A value returned by the pattern fallback extractor contains no upper-case
  letter, and it is the trimmed remainder of the matched line after its first separator
  in which every separator (\<open>-\<close> and \<open>=\<close> as well as \<open>:\<close>) is a colon.
\<close>

theorem pattern_value_lowercase_colons:
  assumes "extractFieldByPattern blocks fieldName = Some v"
  shows "(\<forall>c\<in>set v. \<not> isUpper c) \<and>
    (\<exists>line before sep rest.
       line \<in> set (splitOn (\<lambda>c. c = newline) (toLowerCase (extractText blocks))) \<and>
       includesStr line (toLowerCase fieldName) \<and>
       line = before @ sep # rest \<and> isSeparator sep \<and> (\<forall>c\<in>set before. \<not> isSeparator c) \<and>
       v = trim (map (\<lambda>c. if isSeparator c then CHR '':'' else c) rest))"
proof -
  let ?lines = "splitOn (\<lambda>c. c = newline) (toLowerCase (extractText blocks))"
  from assms have "scanLines fieldName ?lines = Some v"
    by (simp add: extractFieldByPattern_def Let_def)
  from scanLines_Some [OF this] obtain line before sep rest where
    l: "line \<in> set ?lines" "includesStr line (toLowerCase fieldName)"
       "line = before @ sep # rest" "isSeparator sep" "\<forall>c\<in>set before. \<not> isSeparator c"
       "v = trim (map (\<lambda>c. if isSeparator c then CHR '':'' else c) rest)"
    by blast
  have "\<not> isUpper c" if "c \<in> set v" for c
  proof -
    from that l(6) set_trim have "c \<in> set (map (\<lambda>c. if isSeparator c then CHR '':'' else c) rest)"
      by blast
    then obtain d where d: "d \<in> set rest" "c = (if isSeparator d then CHR '':'' else d)"
      by auto
    from d(1) l(3) have "d \<in> set line" by simp
    with l(1) splitOn_pieces have "d \<in> set (toLowerCase (extractText blocks))" by blast
    then have "\<not> isUpper d" by (rule toLowerCase_no_upper)
    moreover have "\<not> isUpper (CHR '':'')" by (simp add: isUpper_def upperLetters_def)
    ultimately show ?thesis using d(2) by simp
  qed
  with l show ?thesis by blast
qed

theorem pattern_value_lowercase_colons_witness:
  "extractFieldByPattern refBlocks ''REF'' = Some ''a:1:b'' \<and>
   list_all (\<lambda>c. \<not> isUpper c) ''a:1:b''"
proof -
  have h: "extractFieldByPattern refBlocks ''REF'' = Some ''a:1:b''"
    by (simp add: refBlocks_def exampleBlock_def extractFieldByPattern_def extractText_def
        string_defs)
  from pattern_value_lowercase_colons [OF h] have "\<forall>c\<in>set ''a:1:b''. \<not> isUpper c"
    by blast
  with h show ?thesis by (simp only: list_all_iff simp_thms)
qed

section \<open>The company identifier\<close>

lemma startsWith_iff: "startsWith hay needle \<longleftrightarrow> (\<exists>post. hay = needle @ post)"
  by (induction hay needle rule: startsWith.induct) auto

lemma includesStr_iff: "includesStr hay needle \<longleftrightarrow> (\<exists>pre post. hay = pre @ needle @ post)"
proof (induction hay)
  case Nil
  then show ?case by simp
next
  case (Cons h hs)
  show ?case
  proof
    assume "includesStr (h # hs) needle"
    then consider "startsWith (h # hs) needle" | "includesStr hs needle" by auto
    then show "\<exists>pre post. h # hs = pre @ needle @ post"
    proof cases
      case 1
      then obtain post where "h # hs = [] @ needle @ post" by (auto simp: startsWith_iff)
      then show ?thesis by blast
    next
      case 2
      with Cons.IH obtain pre post where "hs = pre @ needle @ post" by blast
      then have "h # hs = (h # pre) @ needle @ post" by simp
      then show ?thesis by blast
    qed
  next
    assume "\<exists>pre post. h # hs = pre @ needle @ post"
    then obtain pre post where p: "h # hs = pre @ needle @ post" by blast
    show "includesStr (h # hs) needle"
    proof (cases pre)
      case Nil
      with p have "startsWith (h # hs) needle" by (auto simp: startsWith_iff)
      then show ?thesis by simp
    next
      case (Cons a pre')
      with p have "hs = pre' @ needle @ post" by simp
      with Cons.IH have "includesStr hs needle" by blast
      then show ?thesis by simp
    qed
  qed
qed

lemma recordsLoop_find:
  "recordsLoop lowerText recs =
   (case find (\<lambda>c. includesStr lowerText (toLowerCase (company c))) recs of
      None \<Rightarrow> (None, [])
    | Some r \<Rightarrow> (Some (company r), recordFields r))"
  by (induction recs) auto

text \<open>
  Claim C6. The company identifier returns the first record, in registry order, whose
  lower-cased name is a substring of the lower-cased text, and no record exactly when no
  name is one; with the registry \<open>Acme\<close>, \<open>Acme Corp\<close> every text that contains
  \<open>acme corp invoice\<close> is matched to \<open>Acme\<close>; the loop of \<open>identifyCompanyAndFields\<close>
  finds the same record and reports no match as the company \<open>null\<close>, not as an error.
\<close>

theorem company_first_match:
  "(findMatchingCompanyInPage text recs = Some r \<longleftrightarrow>
      (\<exists>i<length recs. recs ! i = r \<and>
         (\<exists>pre post. toLowerCase text = pre @ toLowerCase (company r) @ post) \<and>
         (\<forall>j<i. \<not> (\<exists>pre post. toLowerCase text = pre @ toLowerCase (company (recs ! j)) @ post)))) \<and>
   (findMatchingCompanyInPage text recs = None \<longleftrightarrow>
      (\<forall>c\<in>set recs. \<not> (\<exists>pre post. toLowerCase text = pre @ toLowerCase (company c) @ post))) \<and>
   (company r1 = ''Acme'' \<and> company r2 = ''Acme Corp'' \<longrightarrow>
      findMatchingCompanyInPage (before @ ''acme corp invoice'' @ after) [r1, r2] = Some r1) \<and>
   identifyCompanyAndFields (Inr recs) text =
     Inr (case findMatchingCompanyInPage text recs of
            None \<Rightarrow> (None, [])
          | Some c \<Rightarrow> (Some (company c), recordFields c))"
proof (intro conjI)
  show "findMatchingCompanyInPage text recs = Some r \<longleftrightarrow>
      (\<exists>i<length recs. recs ! i = r \<and>
         (\<exists>pre post. toLowerCase text = pre @ toLowerCase (company r) @ post) \<and>
         (\<forall>j<i. \<not> (\<exists>pre post. toLowerCase text = pre @ toLowerCase (company (recs ! j)) @ post)))"
    unfolding findMatchingCompanyInPage_def Let_def find_Some_iff includesStr_iff by blast
  show "findMatchingCompanyInPage text recs = None \<longleftrightarrow>
      (\<forall>c\<in>set recs. \<not> (\<exists>pre post. toLowerCase text = pre @ toLowerCase (company c) @ post))"
    unfolding findMatchingCompanyInPage_def Let_def find_None_iff includesStr_iff by blast
  show "company r1 = ''Acme'' \<and> company r2 = ''Acme Corp'' \<longrightarrow>
      findMatchingCompanyInPage (before @ ''acme corp invoice'' @ after) [r1, r2] = Some r1"
  proof
    assume a: "company r1 = ''Acme'' \<and> company r2 = ''Acme Corp''"
    have l: "toLowerCase ''Acme'' = ''acme''" by (simp add: string_defs)
    have "toLowerCase (before @ ''acme corp invoice'' @ after) =
          toLowerCase before @ ''acme'' @ ('' corp invoice'' @ toLowerCase after)"
      by (simp add: string_defs)
    then have "includesStr (toLowerCase (before @ ''acme corp invoice'' @ after)) ''acme''"
      unfolding includesStr_iff by blast
    with a l show "findMatchingCompanyInPage (before @ ''acme corp invoice'' @ after) [r1, r2] = Some r1"
      by (simp add: findMatchingCompanyInPage_def)
  qed
  show "identifyCompanyAndFields (Inr recs) text =
     Inr (case findMatchingCompanyInPage text recs of
            None \<Rightarrow> (None, [])
          | Some c \<Rightarrow> (Some (company c), recordFields c))"
    by (simp add: identifyCompanyAndFields_def findMatchingCompanyInPage_def recordsLoop_find)
qed

theorem company_first_match_witness:
  "findMatchingCompanyInPage ''Re: acme corp invoice 7'' [acmeRecord, acmeCorpRecord] = Some acmeRecord \<and>
   identifyCompanyAndFields (Inr [acmeRecord, acmeCorpRecord]) ''Re: acme corp invoice 7'' =
     Inr (Some ''Acme'', [''Date:''])"
proof -
  have c: "company acmeRecord = ''Acme'' \<and> company acmeCorpRecord = ''Acme Corp''"
    by (simp add: acmeRecord_def acmeCorpRecord_def)
  note t = company_first_match [of "''Re: acme corp invoice 7''" "[acmeRecord, acmeCorpRecord]"
      acmeRecord acmeRecord acmeCorpRecord "''Re: ''" "'' 7''"]
  from t c have m: "findMatchingCompanyInPage ''Re: acme corp invoice 7'' [acmeRecord, acmeCorpRecord] =
      Some acmeRecord"
    by simp
  from t have "identifyCompanyAndFields (Inr [acmeRecord, acmeCorpRecord]) ''Re: acme corp invoice 7'' =
     Inr (case findMatchingCompanyInPage ''Re: acme corp invoice 7'' [acmeRecord, acmeCorpRecord] of
            None \<Rightarrow> (None, [])
          | Some c \<Rightarrow> (Some (company c), recordFields c))"
    by blast
  with m show ?thesis by (simp add: acmeRecord_def)
qed

section \<open>The single-page orchestrator\<close>

lemma fieldsLoop_lookup:
  "map_of (fieldsLoop kv blocks fs acc) f =
   (if f \<in> set fs
    then Some (if truthy (map_of kv f) then map_of kv f else extractFieldByPattern blocks f)
    else map_of acc f)"
  by (induction fs arbitrary: acc) (auto simp: update_conv')

text \<open>
  Claim C8. When the provider has answered and the registry has been read, a single-page
  document whose flattened text contains no registry company name (compared in lower
  case) ends in the error \<open>Company not recognized in single page document\<close>: no
  result is produced. A matched company with a field that neither extractor finds gives
  one result, for page 1, in which that field is \<open>null\<close>.
\<close>

theorem single_page_no_company_fatal:
  assumes "analyzeDocument = Inr textractData" and "Blocks textractData = Some blocks"
    and "getAllCompanyRecords = Inr recs"
  shows "((\<forall>c\<in>set recs. \<not> (\<exists>pre post.
              toLowerCase (extractText blocks) = pre @ toLowerCase (company c) @ post)) \<longrightarrow>
          processSinglePageDocument analyzeDocument getAllCompanyRecords getTargetTablesForCompany =
            Inl (Error ''Company not recognized in single page document'')) \<and>
         (findMatchingCompanyInPage (extractText blocks) recs = Some c \<and> company c \<noteq> [] \<and>
          extractKeyValuePairs blocks = Inr kv \<longrightarrow>
          (\<exists>res. processSinglePageDocument analyzeDocument getAllCompanyRecords
                    getTargetTablesForCompany = Inr [res] \<and>
                 resultCompany res = company c \<and> pageNumber res = 1 \<and>
                 (\<forall>f\<in>set (recordFields c).
                    \<not> truthy (map_of kv f) \<and> extractFieldByPattern blocks f = None \<longrightarrow>
                    map_of (extractedFields res) f = Some None)))"
proof (intro conjI impI)
  assume "\<forall>c\<in>set recs. \<not> (\<exists>pre post.
              toLowerCase (extractText blocks) = pre @ toLowerCase (company c) @ post)"
  then have "find (\<lambda>c. includesStr (toLowerCase (extractText blocks)) (toLowerCase (company c))) recs = None"
    unfolding find_None_iff includesStr_iff by blast
  then have "recordsLoop (toLowerCase (extractText blocks)) recs = (None, [])"
    by (simp add: recordsLoop_find)
  with assms show "processSinglePageDocument analyzeDocument getAllCompanyRecords getTargetTablesForCompany =
            Inl (Error ''Company not recognized in single page document'')"
    by (simp add: processSinglePageDocument_def identifyCompanyAndFields_def)
next
  assume m: "findMatchingCompanyInPage (extractText blocks) recs = Some c \<and> company c \<noteq> [] \<and>
          extractKeyValuePairs blocks = Inr kv"
  then have "recordsLoop (toLowerCase (extractText blocks)) recs = (Some (company c), recordFields c)"
    by (simp add: recordsLoop_find findMatchingCompanyInPage_def)
  with assms m have
    "processSinglePageDocument analyzeDocument getAllCompanyRecords getTargetTablesForCompany =
       Inr [\<lparr>resultCompany = company c, pageNumber = 1,
             extractedFields = fieldsLoop kv blocks (recordFields c) [],
             resultTargetTables = getTargetTablesForCompany (company c)\<rparr>]"
    by (simp add: processSinglePageDocument_def identifyCompanyAndFields_def extractFields_def)
  then show "\<exists>res. processSinglePageDocument analyzeDocument getAllCompanyRecords
                    getTargetTablesForCompany = Inr [res] \<and>
                 resultCompany res = company c \<and> pageNumber res = 1 \<and>
                 (\<forall>f\<in>set (recordFields c).
                    \<not> truthy (map_of kv f) \<and> extractFieldByPattern blocks f = None \<longrightarrow>
                    map_of (extractedFields res) f = Some None)"
    by (simp add: fieldsLoop_lookup)
qed

theorem single_page_no_company_fatal_witness:
  "processSinglePageDocument (Inr refResponse) (Inr [acmeRecord, acmeCorpRecord]) (\<lambda>name. []) =
     Inl (Error ''Company not recognized in single page document'') \<and>
   processSinglePageDocument (Inr acmeResponse) (Inr [acmeRecord, acmeCorpRecord]) (\<lambda>name. [''orders'']) =
     Inr [\<lparr>resultCompany = ''Acme'', pageNumber = 1, extractedFields = [(''Date:'', None)],
           resultTargetTables = [''orders'']\<rparr>]"
proof -
  have b: "Blocks refResponse = Some refBlocks" by (simp add: refResponse_def)
  have n: "\<forall>c\<in>set [acmeRecord, acmeCorpRecord]. \<not> (\<exists>pre post.
              toLowerCase (extractText refBlocks) = pre @ toLowerCase (company c) @ post)"
    unfolding includesStr_iff [symmetric]
    by (simp add: refBlocks_def exampleBlock_def extractText_def acmeRecord_def acmeCorpRecord_def
        string_defs)
  from single_page_no_company_fatal [where analyzeDocument = "Inr refResponse"
      and textractData = refResponse and blocks = refBlocks
      and getAllCompanyRecords = "Inr [acmeRecord, acmeCorpRecord]"
      and recs = "[acmeRecord, acmeCorpRecord]"
      and getTargetTablesForCompany = "\<lambda>name. []", OF refl b refl] n
  have 1: "processSinglePageDocument (Inr refResponse) (Inr [acmeRecord, acmeCorpRecord]) (\<lambda>name. []) =
     Inl (Error ''Company not recognized in single page document'')"
    by blast
  have 2: "processSinglePageDocument (Inr acmeResponse) (Inr [acmeRecord, acmeCorpRecord]) (\<lambda>name. [''orders'']) =
     Inr [\<lparr>resultCompany = ''Acme'', pageNumber = 1, extractedFields = [(''Date:'', None)],
           resultTargetTables = [''orders'']\<rparr>]"
    by (simp add: processSinglePageDocument_def identifyCompanyAndFields_def extractFields_def
        acmeResponse_def acmeRecord_def acmeCorpRecord_def exampleBlock_def extractText_def
        extractKeyValuePairs_def extractFieldByPattern_def string_defs)
  from 1 2 show ?thesis by (rule conjI)
qed

section \<open>Text of a block\<close>

lemmas block_defs = exampleBlock_def wordBlock_def keyBlock_def valueBlock_def








section \<open>The key-value extractor\<close>

text \<open>
  Claim C4. In a batch whose key block \<open>k0\<close> names the value \<open>v9\<close> that is not among the
  value blocks, next to a complete pair, \<open>extractKeyValuePairs\<close> of textract-utils.js throws
  (it passes \<open>undefined\<close> to \<open>getTextForBlock\<close>), while the \<open>extractKeyValuePairs\<close> of the
  local processors skips the key and returns the complete pair.
\<close>

theorem missing_value_block_example:
  "extractKeyValuePairs danglingValueBlocks = Inl TypeError \<and>
   localExtractKeyValuePairs danglingValueBlocks = Inr [(''Date:'', ''2024'')]"
  by (simp add: danglingValueBlocks_def block_defs extractKeyValuePairs_def
      localExtractKeyValuePairs_def getText_def string_defs)

lemma valueIdsLoop_append:
  "valueIdsLoop vm bm t (xs @ ys) kv =
   (case valueIdsLoop vm bm t xs kv of Inl e \<Rightarrow> Inl e | Inr kv' \<Rightarrow> valueIdsLoop vm bm t ys kv')"
  by (induction xs arbitrary: kv) (auto split: sum.splits)

lemma valueRelsLoop_flat:
  "valueRelsLoop vm bm t rels kv =
   valueIdsLoop vm bm t (concat (map Ids (filter (\<lambda>r. Type r = ''VALUE'') rels))) kv"
  by (induction rels arbitrary: kv) (auto simp: valueIdsLoop_append split: sum.splits)

lemma valueIdsLoop_other:
  "valueIdsLoop vm bm t ids kv = Inr kv' \<Longrightarrow> k \<noteq> t \<Longrightarrow> map_of kv' k = map_of kv k"
  by (induction ids arbitrary: kv) (auto simp: update_conv' split: sum.splits)

lemma valueIdsLoop_last:
  "ids \<noteq> [] \<Longrightarrow> valueIdsLoop vm bm t ids kv = Inr kv' \<Longrightarrow>
   getTextForBlock (map_of vm (last ids)) bm = Inr vt \<Longrightarrow> map_of kv' t = Some vt"
proof (induction ids arbitrary: kv)
  case Nil
  then show ?case by simp
next
  case (Cons v ids)
  from Cons.prems(2) obtain vt' where v: "getTextForBlock (map_of vm v) bm = Inr vt'"
    and r: "valueIdsLoop vm bm t ids (AList.update t vt' kv) = Inr kv'"
    by (auto split: sum.splits)
  show ?case
  proof (cases "ids = []")
    case True
    with Cons.prems(3) v r show ?thesis by (auto simp: update_conv')
  next
    case False
    with Cons.prems(3) have "getTextForBlock (map_of vm (last ids)) bm = Inr vt" by simp
    from Cons.IH [OF False r this] show ?thesis .
  qed
qed

lemma valueIdsLoop_isl:
  "isl (valueIdsLoop vm bm t ids kv) \<longleftrightarrow> (\<exists>v\<in>set ids. isl (getTextForBlock (map_of vm v) bm))"
  by (induction ids arbitrary: kv) (auto split: sum.splits)

lemma keysLoop_append:
  "keysLoop vm bm (xs @ ys) kv =
   (case keysLoop vm bm xs kv of Inl e \<Rightarrow> Inl e | Inr kv' \<Rightarrow> keysLoop vm bm ys kv')"
  by (induction xs arbitrary: kv) (auto split: sum.splits option.splits)

lemma keysLoop_other:
  "keysLoop vm bm ks kv = Inr kv' \<Longrightarrow>
   \<forall>(i, kb)\<in>set ks. getTextForBlock (Some kb) bm = Inr t \<longrightarrow>
     (\<forall>rels. Relationships kb = Some rels \<longrightarrow>
        concat (map Ids (filter (\<lambda>r. Type r = ''VALUE'') rels)) = []) \<Longrightarrow>
   map_of kv' t = map_of kv t"
proof (induction ks arbitrary: kv)
  case Nil
  then show ?case by simp
next
  case (Cons p ks)
  obtain i kb where p: "p = (i, kb)" by (cases p)
  from Cons.prems(1) p obtain kt where kt: "getTextForBlock (Some kb) bm = Inr kt"
    by (auto split: sum.splits)
  from Cons.prems(2) have rest: "\<forall>(i, kb)\<in>set ks. getTextForBlock (Some kb) bm = Inr t \<longrightarrow>
     (\<forall>rels. Relationships kb = Some rels \<longrightarrow>
        concat (map Ids (filter (\<lambda>r. Type r = ''VALUE'') rels)) = [])"
    by simp
  show ?case
  proof (cases "Relationships kb")
    case None
    with Cons.prems(1) p kt have "keysLoop vm bm ks kv = Inr kv'" by simp
    from Cons.IH [OF this rest] show ?thesis .
  next
    case (Some rels)
    with Cons.prems(1) p kt obtain kv1 where
      v: "valueIdsLoop vm bm kt (concat (map Ids (filter (\<lambda>r. Type r = ''VALUE'') rels))) kv = Inr kv1"
      and k: "keysLoop vm bm ks kv1 = Inr kv'"
      by (auto simp: valueRelsLoop_flat split: sum.splits)
    have "map_of kv1 t = map_of kv t"
    proof (cases "kt = t")
      case True
      with Cons.prems(2) p kt Some
      have "concat (map Ids (filter (\<lambda>r. Type r = ''VALUE'') rels)) = []" by simp
      with v show ?thesis by simp
    next
      case False
      with v show ?thesis by (metis valueIdsLoop_other)
    qed
    with Cons.IH [OF k rest] show ?thesis by simp
  qed
qed

lemma keysLoop_isl:
  "isl (keysLoop vm bm ks kv) \<longleftrightarrow>
   (\<exists>(i, kb)\<in>set ks. isl (getTextForBlock (Some kb) bm) \<or>
      (\<exists>rels. Relationships kb = Some rels \<and>
         (\<exists>v\<in>set (concat (map Ids (filter (\<lambda>r. Type r = ''VALUE'') rels))).
            isl (getTextForBlock (map_of vm v) bm))))"
proof -
  define bad where "bad = (\<lambda>kb. isl (getTextForBlock (Some kb) bm) \<or>
      (\<exists>rels. Relationships kb = Some rels \<and>
         (\<exists>v\<in>set (concat (map Ids (filter (\<lambda>r. Type r = ''VALUE'') rels))).
            isl (getTextForBlock (map_of vm v) bm))))"
  have "isl (keysLoop vm bm ks kv) \<longleftrightarrow> (\<exists>p\<in>set ks. bad (snd p))"
  proof (induction ks arbitrary: kv)
    case Nil
    then show ?case by simp
  next
    case (Cons p ks)
    obtain i kb where p: "p = (i, kb)" by (cases p)
    show ?case
    proof (cases "bad kb")
      case True
      have "isl (keysLoop vm bm ((i, kb) # ks) kv)"
      proof (cases "getTextForBlock (Some kb) bm")
        case (Inl e)
        then show ?thesis by simp
      next
        case (Inr kt)
        with True obtain rels where rels: "Relationships kb = Some rels"
          and "\<exists>v\<in>set (concat (map Ids (filter (\<lambda>r. Type r = ''VALUE'') rels))).
              isl (getTextForBlock (map_of vm v) bm)"
          unfolding bad_def by auto
        then have "isl (valueRelsLoop vm bm kt rels kv)"
          unfolding valueRelsLoop_flat valueIdsLoop_isl by blast
        then obtain e where "valueRelsLoop vm bm kt rels kv = Inl e"
          by (auto simp: isl_def)
        with Inr rels show ?thesis by simp
      qed
      with True p show ?thesis by simp
    next
      case False
      then obtain kt where kt: "getTextForBlock (Some kb) bm = Inr kt"
        unfolding bad_def by (metis isl_def sum.exhaust)
      have "\<exists>kv1. keysLoop vm bm ((i, kb) # ks) kv = keysLoop vm bm ks kv1"
      proof (cases "Relationships kb")
        case None
        with kt show ?thesis by auto
      next
        case (Some rels)
        with False have "\<not> isl (valueIdsLoop vm bm kt (concat (map Ids (filter (\<lambda>r. Type r = ''VALUE'') rels))) kv)"
          unfolding bad_def by (simp add: valueIdsLoop_isl)
        then obtain kv1 where "valueRelsLoop vm bm kt rels kv = Inr kv1"
          unfolding valueRelsLoop_flat by (metis isl_def sum.exhaust)
        with kt Some show ?thesis by auto
      qed
      then obtain kv1 where "keysLoop vm bm (p # ks) kv = keysLoop vm bm ks kv1"
        using p by blast
      then have "isl (keysLoop vm bm (p # ks) kv) \<longleftrightarrow> (\<exists>q\<in>set ks. bad (snd q))"
        using Cons.IH [of kv1] by (simp only:)
      also have "\<dots> \<longleftrightarrow> (\<exists>q\<in>set (p # ks). bad (snd q))"
        using False p by simp
      finally show ?thesis .
    qed
  qed
  then show ?thesis unfolding bad_def by (simp add: split_beta)
qed


text \<open>
  Claim C9. \<open>extractKeyValuePairs\<close> walks the key blocks in key order and stores, for each,
  the text of each of its value ids under the key text. Whether it throws depends only on
  unresolved blocks, never on two keys having the same text; and when it returns, a key
  text \<open>t\<close> is bound to the value text of the last value id of the last key block (in
  iteration order) that derives \<open>t\<close> and has a value id, whatever earlier key blocks of the
  same text stored.
\<close>

theorem duplicate_key_last_write_wins:
  assumes "organizeBlocks blocks ([], [], []) = (keyMap, valueMap, blockMap)"
  shows "(isl (extractKeyValuePairs blocks) \<longleftrightarrow>
          (\<exists>(i, kb)\<in>set keyMap. isl (getTextForBlock (Some kb) blockMap) \<or>
             (\<exists>rels. Relationships kb = Some rels \<and>
                (\<exists>v\<in>set (concat (map Ids (filter (\<lambda>r. Type r = ''VALUE'') rels))).
                   isl (getTextForBlock (map_of valueMap v) blockMap))))) \<and>
         (extractKeyValuePairs blocks = Inr kv \<and> keyMap = earlier @ (i2, kb2) # later \<and>
          getTextForBlock (Some kb2) blockMap = Inr t \<and> Relationships kb2 = Some rels2 \<and>
          concat (map Ids (filter (\<lambda>r. Type r = ''VALUE'') rels2)) \<noteq> [] \<and>
          getTextForBlock
            (map_of valueMap (last (concat (map Ids (filter (\<lambda>r. Type r = ''VALUE'') rels2)))))
            blockMap = Inr vt \<and>
          (\<forall>(i, kb)\<in>set later. getTextForBlock (Some kb) blockMap = Inr t \<longrightarrow>
             (\<forall>rels. Relationships kb = Some rels \<longrightarrow>
                concat (map Ids (filter (\<lambda>r. Type r = ''VALUE'') rels)) = [])) \<longrightarrow>
          map_of kv t = Some vt)"
proof (intro conjI impI)
  show "isl (extractKeyValuePairs blocks) \<longleftrightarrow>
          (\<exists>(i, kb)\<in>set keyMap. isl (getTextForBlock (Some kb) blockMap) \<or>
             (\<exists>rels. Relationships kb = Some rels \<and>
                (\<exists>v\<in>set (concat (map Ids (filter (\<lambda>r. Type r = ''VALUE'') rels))).
                   isl (getTextForBlock (map_of valueMap v) blockMap))))"
    using assms by (simp only: extractKeyValuePairs_def prod.case keysLoop_isl)
next
  let ?vids = "concat (map Ids (filter (\<lambda>r. Type r = ''VALUE'') rels2))"
  assume a: "extractKeyValuePairs blocks = Inr kv \<and> keyMap = earlier @ (i2, kb2) # later \<and>
          getTextForBlock (Some kb2) blockMap = Inr t \<and> Relationships kb2 = Some rels2 \<and>
          ?vids \<noteq> [] \<and>
          getTextForBlock (map_of valueMap (last ?vids)) blockMap = Inr vt \<and>
          (\<forall>(i, kb)\<in>set later. getTextForBlock (Some kb) blockMap = Inr t \<longrightarrow>
             (\<forall>rels. Relationships kb = Some rels \<longrightarrow>
                concat (map Ids (filter (\<lambda>r. Type r = ''VALUE'') rels)) = []))"
  with assms have "keysLoop valueMap blockMap (earlier @ (i2, kb2) # later) [] = Inr kv"
    by (simp add: extractKeyValuePairs_def)
  then obtain kv1 where "keysLoop valueMap blockMap ((i2, kb2) # later) kv1 = Inr kv"
    unfolding keysLoop_append by (auto split: sum.splits)
  with a obtain kv2 where v: "valueIdsLoop valueMap blockMap t ?vids kv1 = Inr kv2"
    and l: "keysLoop valueMap blockMap later kv2 = Inr kv"
    by (auto simp: valueRelsLoop_flat split: sum.splits)
  from a v have "map_of kv2 t = Some vt"
    using valueIdsLoop_last by blast
  moreover from a l have "map_of kv t = map_of kv2 t"
    using keysLoop_other by blast
  ultimately show "map_of kv t = Some vt" by simp
qed

theorem duplicate_key_last_write_wins_witness:
  "extractKeyValuePairs duplicateKeyBlocks = Inr [(''Date:'', ''new'')] \<and>
   map_of [(''Date:'', ''new'')] ''Date:'' = Some ''new'' \<and>
   \<not> isl (extractKeyValuePairs duplicateKeyBlocks)"
proof -
  let ?k1 = "keyBlock ''k1'' [''v1''] [''w1'']" and ?k2 = "keyBlock ''k2'' [''v2''] [''w1'']"
  let ?v1 = "valueBlock ''v1'' [''w2'']" and ?v2 = "valueBlock ''v2'' [''w3'']"
  let ?bm = "[(''k1'', ?k1), (''v1'', ?v1), (''k2'', ?k2), (''v2'', ?v2),
      (''w1'', wordBlock ''w1'' ''Date:''), (''w2'', wordBlock ''w2'' ''old''),
      (''w3'', wordBlock ''w3'' ''new'')]"
  let ?vm = "[(''v1'', ?v1), (''v2'', ?v2)]"
  have org: "organizeBlocks duplicateKeyBlocks ([], [], []) =
      ([(''k1'', ?k1), (''k2'', ?k2)], ?vm, ?bm)"
    by (simp add: duplicateKeyBlocks_def block_defs)
  have e: "extractKeyValuePairs duplicateKeyBlocks = Inr [(''Date:'', ''new'')]"
    by (simp add: duplicateKeyBlocks_def block_defs extractKeyValuePairs_def)
  have h: "extractKeyValuePairs duplicateKeyBlocks = Inr [(''Date:'', ''new'')] \<and>
      [(''k1'', ?k1), (''k2'', ?k2)] = [(''k1'', ?k1)] @ (''k2'', ?k2) # [] \<and>
      getTextForBlock (Some ?k2) ?bm = Inr ''Date:'' \<and>
      Relationships ?k2 = Some [\<lparr>Type = ''VALUE'', Ids = [''v2'']\<rparr>, \<lparr>Type = ''CHILD'', Ids = [''w1'']\<rparr>] \<and>
      concat (map Ids (filter (\<lambda>r. Type r = ''VALUE'')
        [\<lparr>Type = ''VALUE'', Ids = [''v2'']\<rparr>, \<lparr>Type = ''CHILD'', Ids = [''w1'']\<rparr>])) \<noteq> [] \<and>
      getTextForBlock (map_of ?vm (last (concat (map Ids (filter (\<lambda>r. Type r = ''VALUE'')
        [\<lparr>Type = ''VALUE'', Ids = [''v2'']\<rparr>, \<lparr>Type = ''CHILD'', Ids = [''w1'']\<rparr>]))))) ?bm = Inr ''new'' \<and>
      (\<forall>(i, kb)\<in>set []. getTextForBlock (Some kb) ?bm = Inr ''Date:'' \<longrightarrow>
         (\<forall>rels. Relationships kb = Some rels \<longrightarrow>
            concat (map Ids (filter (\<lambda>r. Type r = ''VALUE'') rels)) = []))"
    by (simp add: e block_defs)
  note t = duplicate_key_last_write_wins [OF org]
  from t [THEN conjunct2, rule_format, OF h]
  have 1: "map_of [(''Date:'', ''new'')] ''Date:'' = Some ''new''" .
  have 2: "\<not> isl (extractKeyValuePairs duplicateKeyBlocks)"
    unfolding t [THEN conjunct1] by (auto simp: block_defs)
  from e 1 2 show ?thesis by blast
qed

section \<open>The polling loop\<close>

lemma pollLoop_polls:
  assumes "pollLoop g recs job n tok cp rs = Some (Inr (res, k))"
  shows "n < k"
proof -
  have "\<forall>res k. y = Inr (res, k) \<longrightarrow> n < k" if h: "pollLoop g recs job n tok cp rs = Some y" for y
  proof (rule pollLoop.raw_induct
      [where P = "\<lambda>g recs job n tok cp rs y. \<forall>res k. y = Inr (res, k) \<longrightarrow> n < k", OF _ h])
    fix f :: "(string \<Rightarrow> nat \<Rightarrow> string option \<Rightarrow> js_error + response) \<Rightarrow> companyRecord list \<Rightarrow> string
       \<Rightarrow> nat \<Rightarrow> string option \<Rightarrow> nat \<Rightarrow> extractionResult list
       \<Rightarrow> (js_error + extractionResult list \<times> nat) option"
    fix g recs job n tok cp rs y
    assume ih: "\<And>g recs job n tok cp rs y. f g recs job n tok cp rs = Some y \<Longrightarrow>
        \<forall>res k. y = Inr (res, k) \<longrightarrow> n < k"
    assume body: "(case g job n tok of
        Inl e \<Rightarrow> Some (Inl e)
      | Inr response \<Rightarrow>
          (case Blocks response of
             None \<Rightarrow> Some (Inl TypeError)
           | Some blocks \<Rightarrow>
               (case pagesLoop recs blocks
                       (filter (\<lambda>block. BlockType block = ''PAGE'') blocks) cp rs of
                  Inl e \<Rightarrow> Some (Inl e)
                | Inr (currentPage', results') \<Rightarrow>
                    if \<not> truthy (NextToken response) \<or> JobStatus response \<noteq> ''IN_PROGRESS''
                    then Some (Inr (results', Suc n))
                    else f g recs job (Suc n) (NextToken response) currentPage' results'))) = Some y"
    show "\<forall>res k. y = Inr (res, k) \<longrightarrow> n < k"
    proof (intro allI impI)
      fix res k
      assume y: "y = Inr (res, k)"
      from body y show "n < k"
        by (auto split: sum.splits option.splits prod.splits if_splits dest!: ih simp: Suc_lessD)
    qed
  qed
  with assms show ?thesis by blast
qed

lemma pollLoop_step:
  assumes "g job n tok = Inr r" and "Blocks r = Some blocks"
    and "pagesLoop recs blocks (filter (\<lambda>block. BlockType block = ''PAGE'') blocks) cp rs = Inr (cp', rs')"
  shows "pollLoop g recs job n tok cp rs =
    (if \<not> truthy (NextToken r) \<or> JobStatus r \<noteq> ''IN_PROGRESS''
     then Some (Inr (rs', Suc n))
     else pollLoop g recs job (Suc n) (NextToken r) cp' rs')"
  by (subst pollLoop.simps) (simp add: assms)

lemma pollLoop_never_returns:
  assumes "\<And>n tok. \<exists>r blocks. g job n tok = Inr r \<and> Blocks r = Some blocks \<and>
      (\<forall>cp rs. \<not> isl (pagesLoop recs blocks (filter (\<lambda>block. BlockType block = ''PAGE'') blocks) cp rs)) \<and>
      truthy (NextToken r) \<and> JobStatus r = ''IN_PROGRESS''"
  shows "pollLoop g recs job n tok cp rs = None"
proof -
  have "g' = g \<and> recs' = recs \<and> job' = job \<longrightarrow> False"
    if h: "pollLoop g' recs' job' n tok cp rs = Some y" for y g' recs' job'
  proof (rule pollLoop.raw_induct
      [where P = "\<lambda>g' recs' job' n tok cp rs y. g' = g \<and> recs' = recs \<and> job' = job \<longrightarrow> False",
        OF _ h])
    fix f :: "(string \<Rightarrow> nat \<Rightarrow> string option \<Rightarrow> js_error + response) \<Rightarrow> companyRecord list \<Rightarrow> string
       \<Rightarrow> nat \<Rightarrow> string option \<Rightarrow> nat \<Rightarrow> extractionResult list
       \<Rightarrow> (js_error + extractionResult list \<times> nat) option"
    fix g' recs' job' n tok cp rs y
    assume ih: "\<And>g' recs' job' n tok cp rs y. f g' recs' job' n tok cp rs = Some y \<Longrightarrow>
        g' = g \<and> recs' = recs \<and> job' = job \<longrightarrow> False"
    assume body: "(case g' job' n tok of
        Inl e \<Rightarrow> Some (Inl e)
      | Inr response \<Rightarrow>
          (case Blocks response of
             None \<Rightarrow> Some (Inl TypeError)
           | Some blocks \<Rightarrow>
               (case pagesLoop recs' blocks
                       (filter (\<lambda>block. BlockType block = ''PAGE'') blocks) cp rs of
                  Inl e \<Rightarrow> Some (Inl e)
                | Inr (currentPage', results') \<Rightarrow>
                    if \<not> truthy (NextToken response) \<or> JobStatus response \<noteq> ''IN_PROGRESS''
                    then Some (Inr (results', Suc n))
                    else f g' recs' job' (Suc n) (NextToken response) currentPage' results'))) = Some y"
    show "g' = g \<and> recs' = recs \<and> job' = job \<longrightarrow> False"
    proof
      assume eq: "g' = g \<and> recs' = recs \<and> job' = job"
      from assms [of n tok] obtain r blocks where r: "g job n tok = Inr r" "Blocks r = Some blocks"
        "\<forall>cp rs. \<not> isl (pagesLoop recs blocks (filter (\<lambda>block. BlockType block = ''PAGE'') blocks) cp rs)"
        "truthy (NextToken r)" "JobStatus r = ''IN_PROGRESS''"
        by blast
      from r(3) obtain cp' rs' where
        p: "pagesLoop recs blocks (filter (\<lambda>block. BlockType block = ''PAGE'') blocks) cp rs = Inr (cp', rs')"
        by (metis isl_def sum.exhaust surj_pair)
      from body eq r p have "f g recs job (Suc n) (NextToken r) cp' rs' = Some y"
        by simp
      from ih [OF this] show False by simp
    qed
  qed
  then show ?thesis by (cases "pollLoop g recs job n tok cp rs") auto
qed


lemma answerAfter_polls:
  "polls \<le> n \<Longrightarrow>
   pollLoop (answerAfter n) recs job polls tok cp rs = Some (Inr (rs, Suc n))"
proof (induction "n - polls" arbitrary: polls tok)
  case 0
  then have "answerAfter n job polls tok = Inr doneResponse" "polls = n"
    by (simp_all add: answerAfter_def)
  then show ?case
    by (subst pollLoop.simps) (simp add: doneResponse_def)
next
  case (Suc d)
  then have a: "answerAfter n job polls tok = Inr pendingCursor"
    by (simp add: answerAfter_def)
  have "pollLoop (answerAfter n) recs job polls tok cp rs =
        pollLoop (answerAfter n) recs job (Suc polls) (Some ''t1'') cp rs"
    by (subst pollLoop.simps) (simp add: a pendingCursor_def)
  also from Suc have "\<dots> = Some (Inr (rs, Suc n))"
    by (intro Suc.hyps(1)) simp_all
  finally show ?case .
qed

text \<open>
  Claim C1, as the code has it. After a poll response whose pages were processed without
  an exception, the loop returns (having made this poll and no further one) exactly when
  the response carries no cursor (none, or the empty string) or its status is not
  \<open>IN_PROGRESS\<close>; when it carries a cursor and the status is \<open>IN_PROGRESS\<close> the loop
  polls again, passing that cursor.
\<close>

theorem poll_termination_condition:
  assumes "getAsyncResults jobId polls nextToken = Inr response"
    and "Blocks response = Some blocks"
    and "pagesLoop companyRecords blocks (filter (\<lambda>block. BlockType block = ''PAGE'') blocks)
           currentPage results = Inr (currentPage', results')"
  shows "(pollLoop getAsyncResults companyRecords jobId polls nextToken currentPage results =
            Some (Inr (results', Suc polls)) \<longleftrightarrow>
          \<not> truthy (NextToken response) \<or> JobStatus response \<noteq> ''IN_PROGRESS'') \<and>
         (truthy (NextToken response) \<and> JobStatus response = ''IN_PROGRESS'' \<longrightarrow>
          pollLoop getAsyncResults companyRecords jobId polls nextToken currentPage results =
            pollLoop getAsyncResults companyRecords jobId (Suc polls) (NextToken response)
              currentPage' results')"
proof -
  note step = pollLoop_step [where g = getAsyncResults and job = jobId and n = polls
      and tok = nextToken, OF assms]
  have "pollLoop getAsyncResults companyRecords jobId polls nextToken currentPage results \<noteq>
          Some (Inr (results', Suc polls))"
    if c: "truthy (NextToken response) \<and> JobStatus response = ''IN_PROGRESS''"
  proof
    assume "pollLoop getAsyncResults companyRecords jobId polls nextToken currentPage results =
          Some (Inr (results', Suc polls))"
    with step c have "pollLoop getAsyncResults companyRecords jobId (Suc polls) (NextToken response)
              currentPage' results' = Some (Inr (results', Suc polls))"
      by simp
    from pollLoop_polls [OF this] show False by simp
  qed
  with step show ?thesis by auto
qed

theorem poll_termination_condition_witness:
  "pollLoop (answerAfter 1) [] ''job'' 0 None 1 [] =
     pollLoop (answerAfter 1) [] ''job'' 1 (Some ''t1'') 1 [] \<and>
   pollLoop (answerAfter 1) [] ''job'' 1 (Some ''t1'') 1 [] = Some (Inr ([], 2))"
proof -
  have a0: "answerAfter 1 ''job'' 0 None = Inr pendingCursor"
    and a1: "answerAfter 1 ''job'' 1 (Some ''t1'') = Inr doneResponse"
    by (simp_all add: answerAfter_def)
  have b0: "Blocks pendingCursor = Some []" and b1: "Blocks doneResponse = Some []"
    by (simp_all add: pendingCursor_def doneResponse_def)
  have p: "pagesLoop [] [] (filter (\<lambda>block. BlockType block = ''PAGE'') []) 1 [] = Inr (1, [])"
    by simp
  from poll_termination_condition [where getAsyncResults = "answerAfter 1" and jobId = "''job''"
      and polls = 0 and nextToken = None, OF a0 b0 p]
  have 1: "pollLoop (answerAfter 1) [] ''job'' 0 None 1 [] =
     pollLoop (answerAfter 1) [] ''job'' 1 (Some ''t1'') 1 []"
    by (simp add: pendingCursor_def)
  from poll_termination_condition [where getAsyncResults = "answerAfter 1" and jobId = "''job''"
      and polls = 1 and nextToken = "Some ''t1''", OF a1 b1 p]
  have 2: "pollLoop (answerAfter 1) [] ''job'' 1 (Some ''t1'') 1 [] = Some (Inr ([], 2))"
    by (simp add: doneResponse_def)
  from 1 2 show ?thesis by (rule conjI)
qed

text \<open>
  Claim C1, as stated, fails. The first response of \<open>twoBatchJob\<close> carries a cursor and
  the status \<open>SUCCEEDED\<close>: the loop returns after this one poll, with the result of the
  first page only. The response \<open>pendingNoCursor\<close> has no cursor and the status
  \<open>IN_PROGRESS\<close>: the loop returns after it as well.
\<close>

theorem poll_termination_counterexample:
  "truthy (NextToken page1Response) \<and>
   processMultiPageDocument (Inr ''job'') twoBatchJob [acmeRecord, acmeCorpRecord] =
     Some (Inr ([\<lparr>resultCompany = ''Acme'', pageNumber = 1, extractedFields = [(''Date:'', None)],
                   resultTargetTables = [''acme-orders'']\<rparr>], 1)) \<and>
   NextToken pendingNoCursor = None \<and> JobStatus pendingNoCursor = ''IN_PROGRESS'' \<and>
   processMultiPageDocument (Inr ''job'') (alwaysAnswer pendingNoCursor) [] = Some (Inr ([], 1))"
proof -
  have 1: "processMultiPageDocument (Inr ''job'') twoBatchJob [acmeRecord, acmeCorpRecord] =
     Some (Inr ([\<lparr>resultCompany = ''Acme'', pageNumber = 1, extractedFields = [(''Date:'', None)],
                   resultTargetTables = [''acme-orders'']\<rparr>], 1))"
    unfolding processMultiPageDocument_def
    by (subst pollLoop.simps)
       (simp add: twoBatchJob_def page1Response_def acmeRecord_def acmeCorpRecord_def
          exampleBlock_def extractTextFromPage_def findMatchingCompanyInPage_def
          extractFieldsFromPage_def pageStrictEquals_def extractKeyValuePairs_def
          extractFieldByPattern_def extractText_def string_defs)
  have 2: "processMultiPageDocument (Inr ''job'') (alwaysAnswer pendingNoCursor) [] = Some (Inr ([], 1))"
    unfolding processMultiPageDocument_def
    by (subst pollLoop.simps) (simp add: alwaysAnswer_def pendingNoCursor_def)
  from 1 2 show ?thesis by (simp add: page1Response_def pendingNoCursor_def)
qed

text \<open>
  Claim C5, as the code has it. The loop has no cap: for every \<open>n\<close> the provider
  \<open>answerAfter n\<close> makes it poll \<open>n + 1\<close> times, and when every response carries a cursor
  and the status \<open>IN_PROGRESS\<close> (and no page throws) it never returns.
\<close>

theorem polling_unbounded:
  "processMultiPageDocument (Inr jobId) (answerAfter n) companyRecords = Some (Inr ([], Suc n)) \<and>
   ((\<forall>polls nextToken. \<exists>response blocks.
        getAsyncResults jobId polls nextToken = Inr response \<and> Blocks response = Some blocks \<and>
        (\<forall>currentPage results.
           \<not> isl (pagesLoop companyRecords blocks
                     (filter (\<lambda>block. BlockType block = ''PAGE'') blocks) currentPage results)) \<and>
        truthy (NextToken response) \<and> JobStatus response = ''IN_PROGRESS'') \<longrightarrow>
    processMultiPageDocument (Inr jobId) getAsyncResults companyRecords = None)"
proof (intro conjI impI)
  show "processMultiPageDocument (Inr jobId) (answerAfter n) companyRecords = Some (Inr ([], Suc n))"
    by (simp add: processMultiPageDocument_def answerAfter_polls)
next
  assume "\<forall>polls nextToken. \<exists>response blocks.
        getAsyncResults jobId polls nextToken = Inr response \<and> Blocks response = Some blocks \<and>
        (\<forall>currentPage results.
           \<not> isl (pagesLoop companyRecords blocks
                     (filter (\<lambda>block. BlockType block = ''PAGE'') blocks) currentPage results)) \<and>
        truthy (NextToken response) \<and> JobStatus response = ''IN_PROGRESS''"
  then have "pollLoop getAsyncResults companyRecords jobId 0 None 1 [] = None"
    by (intro pollLoop_never_returns) blast
  then show "processMultiPageDocument (Inr jobId) getAsyncResults companyRecords = None"
    by (simp add: processMultiPageDocument_def)
qed

lemma alwaysPending_continues:
  "\<exists>response blocks.
        alwaysAnswer pendingCursor job polls nextToken = Inr response \<and> Blocks response = Some blocks \<and>
        (\<forall>currentPage results.
           \<not> isl (pagesLoop recs blocks
                     (filter (\<lambda>block. BlockType block = ''PAGE'') blocks) currentPage results)) \<and>
        truthy (NextToken response) \<and> JobStatus response = ''IN_PROGRESS''"
  by (simp add: alwaysAnswer_def pendingCursor_def)

theorem polling_unbounded_witness:
  "processMultiPageDocument (Inr ''job'') (answerAfter 3) [] = Some (Inr ([], 4)) \<and>
   processMultiPageDocument (Inr ''job'') (alwaysAnswer pendingCursor) [acmeRecord] = None"
proof -
  note t = polling_unbounded [of "''job''" 3 "[]" "alwaysAnswer pendingCursor"]
  note u = polling_unbounded [of "''job''" 0 "[acmeRecord]" "alwaysAnswer pendingCursor"]
  from t have 1: "processMultiPageDocument (Inr ''job'') (answerAfter 3) [] = Some (Inr ([], 4))"
    by simp
  from u alwaysPending_continues
  have 2: "processMultiPageDocument (Inr ''job'') (alwaysAnswer pendingCursor) [acmeRecord] = None"
    by blast
  from 1 2 show ?thesis by (rule conjI)
qed

text \<open>
  Claim C5, as stated, fails: when every poll is answered with a cursor and the status
  \<open>IN_PROGRESS\<close>, no number of polls ends the loop.
\<close>

theorem polling_cap_counterexample:
  "processMultiPageDocument (Inr ''job'') (alwaysAnswer pendingCursor) [] = None"
proof -
  have "pollLoop (alwaysAnswer pendingCursor) [] ''job'' 0 None 1 [] = None"
    by (rule pollLoop_never_returns) (rule alwaysPending_continues)
  then show ?thesis by (simp add: processMultiPageDocument_def)
qed

section \<open>The table zone extractor\<close>








end
